theory Spec2Isabelle
  imports Main "HOL-Library.Word"
begin

unbundle bit_operations_syntax

section \<open>Wire frame codec (ws2812\_ble\_test.py)\<close>

text \<open>
  A Python \<open>bytes\<close> value is a list of octets. The integers that the command line
  hands to \<open>build_frame\<close> are unbounded Python integers, so they stay \<open>int\<close>
  and the masking with \<open>0xFF\<close> is written out.
\<close>

type_synonym byte = "8 word"

definition FRAME_HEADER :: int where
  "FRAME_HEADER = 0xAA55"

definition PROTOCOL_VERSION :: int where
  "PROTOCOL_VERSION = 0x01"

definition MAX_PAYLOAD :: nat where
  "MAX_PAYLOAD = 32"

text \<open>
  Every \<open>raise\<close> of the three modules is one constructor. The six \<open>ValueError\<close>s of the
  codec are told apart by their message: \<open>ValidationError\<close> is "payload too long",
  \<open>TooShort\<close> is "ACK frame too short", \<open>BadHeader\<close> is "Invalid header",
  \<open>BadVersion\<close> is "Protocol version mismatch", \<open>LengthMismatch\<close> is
  "ACK data length mismatch" and \<open>ChecksumMismatch\<close> is "Checksum mismatch".
  \<open>NotConnectedError\<close> is \<open>Exception("Device not connected")\<close>,
  \<open>TransportError\<close> is an exception raised by the BLE client itself and
  \<open>CommandSendError\<close> is the \<open>Exception("Command send error: ...")\<close> that
  03\_ws2812\_config\_ui.py wraps it in. \<open>AttributeError\<close> is what the attribute
  access \<open>st.warning\<close> raises when \<open>st\<close> is \<open>None\<close>.
\<close>

datatype error =
    ValidationError
  | TooShort
  | BadHeader
  | BadVersion
  | LengthMismatch
  | ChecksumMismatch
  | NotConnectedError
  | TransportError
  | CommandSendError
  | AttributeError

text \<open>\<open>crc_xor\<close>: the loop \<open>for b in data: checksum ^= b\<close>, starting from 0.\<close>

fun crc_loop :: "byte \<Rightarrow> byte list \<Rightarrow> byte" where
  "crc_loop checksum [] = checksum"
| "crc_loop checksum (b # data) = crc_loop (checksum XOR b) data"

definition crc_xor :: "byte list \<Rightarrow> byte" where
  "crc_xor data = crc_loop 0 data"

text \<open>
  \<open>build_frame\<close>: the length test comes first, then the bytearray is filled field by
  field and the checksum of everything so far is appended.
\<close>

definition build_frame :: "int \<Rightarrow> int \<Rightarrow> int \<Rightarrow> byte list \<Rightarrow> error + byte list" where
  "build_frame event sub_event sequence payload =
     (if length payload > MAX_PAYLOAD then Inl ValidationError
      else
        let frame = [word_of_int (drop_bit 8 FRAME_HEADER AND 0xFF),
                     word_of_int (FRAME_HEADER AND 0xFF)];
            frame = frame @ [word_of_int PROTOCOL_VERSION];
            frame = frame @ [word_of_int (event AND 0xFF)];
            frame = frame @ [word_of_int (sub_event AND 0xFF)];
            frame = frame @ [word_of_int (sequence AND 0xFF)];
            frame = frame @ [of_nat (length payload)];
            frame = frame @ payload;
            checksum = crc_xor frame
        in Inr (frame @ [checksum]))"

text \<open>
  The dictionary that \<open>parse_ack\<close> returns has six fixed keys; the record's fields are
  those keys with the prefix \<open>ack_\<close>. The values are Python integers read from the
  buffer, or \<open>None\<close>.
\<close>

record ack =
  ack_event :: int
  ack_sub_event :: int
  ack_sequence :: int
  ack_status :: "int option"
  ack_ref_event :: "int option"
  ack_ref_sub :: "int option"

text \<open>
  \<open>parse_ack\<close>, check by check in the order of the source. \<open>data[7:7 + data_len]\<close> is
  \<open>take data_len (drop 7 data)\<close> (a Python slice is cut at the end of the buffer) and
  \<open>data[:-1]\<close> is \<open>butlast data\<close>. Every index read lies below the length that the
  checks before it have established.
\<close>

definition parse_ack :: "byte list \<Rightarrow> error + ack" where
  "parse_ack data =
     (if length data < 9 then Inl TooShort
      else
        let header = push_bit 8 (uint (data ! 0)) OR uint (data ! 1) in
        if header \<noteq> FRAME_HEADER then Inl BadHeader
        else
          let version = uint (data ! 2) in
          if version \<noteq> PROTOCOL_VERSION then Inl BadVersion
          else
            let event = uint (data ! 3);
                sub_event = uint (data ! 4);
                seq = uint (data ! 5);
                data_len = unat (data ! 6);
                payload = take data_len (drop 7 data);
                checksum_index = 7 + data_len in
            if checksum_index \<ge> length data then Inl LengthMismatch
            else
              let checksum = data ! checksum_index in
              if checksum \<noteq> crc_xor (butlast data) then Inl ChecksumMismatch
              else Inr \<lparr>ack_event = event,
                        ack_sub_event = sub_event,
                        ack_sequence = seq,
                        ack_status = (if payload \<noteq> [] then Some (uint (payload ! 0)) else None),
                        ack_ref_event = (if length payload > 1 then Some (uint (payload ! 1)) else None),
                        ack_ref_sub = (if length payload > 2 then Some (uint (payload ! 2)) else None)\<rparr>)"

text \<open>
  One bit of one byte of a buffer inverted, every other byte kept: the corruption that
  the checksum is there to detect. Bit \<open>k\<close> of the byte at index \<open>i\<close>.
\<close>

definition flip_frame_bit :: "nat \<Rightarrow> nat \<Rightarrow> byte list \<Rightarrow> byte list" where
  "flip_frame_bit i k frame = frame[i := flip_bit k (frame ! i)]"

section \<open>Device discovery (ws2812\_ble\_test.py)\<close>

text \<open>
  Of a discovered device the code reads \<open>name\<close>, which may be \<open>None\<close>, and
  \<open>address\<close>.
\<close>

record ble_device =
  name :: "string option"
  address :: string

text \<open>Python's truth value of an optional string: \<open>None\<close> and the empty string are false.\<close>

definition truthy :: "string option \<Rightarrow> bool" where
  "truthy s = (case s of None \<Rightarrow> False | Some n \<Rightarrow> n \<noteq> [])"

text \<open>The \<open>for\<close> loop over the scan results, returning at the first hit.\<close>

fun first_named :: "string \<Rightarrow> ble_device list \<Rightarrow> string option" where
  "first_named device_name [] = None"
| "first_named device_name (device # devices) =
     (if truthy (name device) \<and> name device = Some device_name then Some (address device)
      else first_named device_name devices)"

text \<open>
  \<open>discover_device_by_name\<close>. What \<open>BleakScanner.discover\<close> yields within the timeout
  is the environment's part: either it raises, and the exception passes through, or it
  gives the list of devices seen. \<open>Inr None\<close> is the function's \<open>return None\<close>.
\<close>

definition discover_device_by_name :: "string \<Rightarrow> error + ble_device list \<Rightarrow> error + string option" where
  "discover_device_by_name device_name discovered =
     (case discovered of
        Inl e \<Rightarrow> Inl e
      | Inr devices \<Rightarrow> Inr (first_named device_name devices))"

text \<open>
  An advertisement carries the requested name when it has a name at all (neither
  \<open>None\<close> nor empty) and that name is the requested string, character by character.
\<close>

definition advertises :: "string \<Rightarrow> ble_device \<Rightarrow> bool" where
  "advertises device_name device =
     (name device \<noteq> None \<and> name device \<noteq> Some [] \<and> name device = Some device_name)"

section \<open>The controller (ws2812\_config\_ui.py and 03\_ws2812\_config\_ui.py)\<close>

text \<open>
  \<open>WS2812Controller\<close> holds \<open>device_address\<close> and \<open>client\<close>; of the client,
  \<open>send_command\<close> reads \<open>is_connected\<close>. Neither version of \<open>send_command\<close> assigns
  to a field of the controller, so a send returns no new controller.
\<close>

record bleak_client =
  is_connected :: bool

record controller =
  device_address :: "string option"
  client :: "bleak_client option"

text \<open>The guard \<open>not self.client or not self.client.is_connected\<close>, negated.\<close>

definition connected :: "controller \<Rightarrow> bool" where
  "connected ctl = (case client ctl of None \<Rightarrow> False | Some c \<Rightarrow> is_connected c)"

text \<open>
  What the BLE stack does during one send is the environment's part: whether each of
  the three client calls raises, and which notifications reach the handler while the
  coroutine sleeps.
\<close>

record transport =
  start_notify_raises :: bool
  write_gatt_char_raises :: bool
  stop_notify_raises :: bool
  notifications :: "byte list list"

text \<open>
  The module global \<open>st\<close>. ws2812\_config\_ui.py wraps \<open>import streamlit as st\<close> in
  \<open>try\<close> and sets \<open>st = None\<close> when the import fails; 03\_ws2812\_config\_ui.py
  imports it unconditionally, so there \<open>st\<close> is always the module.
\<close>

datatype streamlit = Streamlit

text \<open>
  What a send does, in order: each client call with whether it returned normally, the
  two-second sleep, each \<open>st.warning\<close>, either for a notification that did not
  parse or for a failed \<open>stop_notify\<close>, and each exception that leaves the
  notification handler towards the BLE stack that called it.
\<close>

datatype io =
    StartNotify bool
  | WriteGattChar "byte list" bool
  | Sleep
  | StopNotify bool
  | ParseWarning error
  | StopWarning
  | HandlerRaised error

record outcome =
  result :: "error + ack option"
  calls :: "io list"

text \<open>
  \<open>ack_handler\<close>: the closure over \<open>ack_received\<close>. A parsed notification replaces
  \<open>ack_received\<close>. One that raises in \<open>parse_ack\<close> is caught and leaves
  \<open>ack_received\<close> as it was; the \<open>except\<close> clause then calls \<open>st.warning\<close>, which
  warns when \<open>st\<close> is the module and raises \<open>AttributeError\<close> out of the handler
  when \<open>st\<close> is \<open>None\<close>. The handler runs in the BLE stack's callback, not in the
  coroutine of \<open>send_command\<close>, so that exception does not reach \<open>send_command\<close>.
  The state is \<open>ack_received\<close> and the handler's events so far.
\<close>

definition ack_handler ::
  "streamlit option \<Rightarrow> byte list \<Rightarrow> ack option \<times> io list \<Rightarrow> ack option \<times> io list" where
  "ack_handler st data state =
     (case parse_ack data of
        Inr a \<Rightarrow> (Some a, snd state)
      | Inl e \<Rightarrow>
          (case st of
             Some module \<Rightarrow> (fst state, snd state @ [ParseWarning e])
           | None \<Rightarrow> (fst state, snd state @ [HandlerRaised AttributeError])))"

fun deliver ::
  "streamlit option \<Rightarrow> byte list list \<Rightarrow> ack option \<times> io list \<Rightarrow> ack option \<times> io list" where
  "deliver st [] state = state"
| "deliver st (data # rest) state = deliver st rest (ack_handler st data state)"

text \<open>The events that the handler adds to the trace.\<close>

fun handler_event :: "io \<Rightarrow> bool" where
  "handler_event (ParseWarning e) = True"
| "handler_event (HandlerRaised e) = True"
| "handler_event _ = False"

text \<open>
  \<open>send_command\<close> of ws2812\_config\_ui.py: the four awaits in a row with nothing
  around them, so an exception of the client leaves the coroutine where it is raised.
  The sequence argument of \<open>build_frame\<close> is the literal 1. The lazy import of
  \<open>build_frame\<close> and \<open>parse_ack\<close> is taken to succeed, ws2812\_ble\_test.py being
  part of the repository; notifications reach the handler during the sleep.
\<close>

definition send_command ::
  "streamlit option \<Rightarrow> transport \<Rightarrow> controller \<Rightarrow> int \<Rightarrow> int \<Rightarrow> byte list \<Rightarrow> outcome" where
  "send_command st t ctl event subevent payload =
     (if \<not> connected ctl then \<lparr>result = Inl NotConnectedError, calls = []\<rparr>
      else case build_frame event subevent 1 payload of
        Inl e \<Rightarrow> \<lparr>result = Inl e, calls = []\<rparr>
      | Inr frame \<Rightarrow>
          if start_notify_raises t
          then \<lparr>result = Inl TransportError, calls = [StartNotify False]\<rparr>
          else if write_gatt_char_raises t
          then \<lparr>result = Inl TransportError,
                calls = [StartNotify True, WriteGattChar frame False]\<rparr>
          else
            let (ack_received, warnings) = deliver st (notifications t) (None, []);
                before_stop = [StartNotify True, WriteGattChar frame True, Sleep] @ warnings in
            if stop_notify_raises t
            then \<lparr>result = Inl TransportError, calls = before_stop @ [StopNotify False]\<rparr>
            else \<lparr>result = Inr ack_received, calls = before_stop @ [StopNotify True]\<rparr>)"

text \<open>
  The \<open>finally\<close> block of 03\_ws2812\_config\_ui.py: \<open>stop_notify\<close> is awaited when
  \<open>notify_started\<close> is set, and its exception is caught and warned about.
\<close>

definition finally_stop :: "transport \<Rightarrow> bool \<Rightarrow> io list" where
  "finally_stop t notify_started =
     (if notify_started
      then (if stop_notify_raises t then [StopNotify False, StopWarning] else [StopNotify True])
      else [])"

text \<open>
  \<open>send_command\<close> of 03\_ws2812\_config\_ui.py: the guard and \<open>build_frame\<close> come before
  the \<open>try\<close>; inside it any exception becomes "Command send error" after the
  \<open>finally\<close> block has run.
\<close>

definition send_command_03 :: "transport \<Rightarrow> controller \<Rightarrow> int \<Rightarrow> int \<Rightarrow> byte list \<Rightarrow> outcome" where
  "send_command_03 t ctl event subevent payload =
     (if \<not> connected ctl then \<lparr>result = Inl NotConnectedError, calls = []\<rparr>
      else case build_frame event subevent 1 payload of
        Inl e \<Rightarrow> \<lparr>result = Inl e, calls = []\<rparr>
      | Inr frame \<Rightarrow>
          if start_notify_raises t
          then \<lparr>result = Inl CommandSendError,
                calls = [StartNotify False] @ finally_stop t False\<rparr>
          else if write_gatt_char_raises t
          then \<lparr>result = Inl CommandSendError,
                calls = [StartNotify True, WriteGattChar frame False] @ finally_stop t True\<rparr>
          else
            let (ack_received, warnings) = deliver (Some Streamlit) (notifications t) (None, []) in
            \<lparr>result = Inr ack_received,
             calls = [StartNotify True, WriteGattChar frame True, Sleep] @ warnings
                     @ finally_stop t True\<rparr>)"

text \<open>
  Whether a subscription is active after a sequence of calls: a \<open>start_notify\<close> that
  returned sets it, a \<open>stop_notify\<close> that returned clears it.
\<close>

fun subscribed :: "bool \<Rightarrow> io list \<Rightarrow> bool" where
  "subscribed active [] = active"
| "subscribed active (StartNotify ok # rest) = subscribed (active \<or> ok) rest"
| "subscribed active (StopNotify ok # rest) = subscribed (active \<and> \<not> ok) rest"
| "subscribed active (_ # rest) = subscribed active rest"

text \<open>The frames handed to \<open>write_gatt_char\<close>, in order.\<close>

fun written :: "io list \<Rightarrow> byte list list" where
  "written [] = []"
| "written (WriteGattChar frame ok # rest) = frame # written rest"
| "written (_ # rest) = written rest"

section \<open>Properties of the codec\<close>

lemma crc_loop_append: "crc_loop c (xs @ ys) = crc_loop (crc_loop c xs) ys"
  by (induction xs arbitrary: c) simp_all

lemma crc_loop_acc: "crc_loop c xs = c XOR crc_loop 0 xs"
proof (induction xs arbitrary: c)
  case Nil
  show ?case by simp
next
  case (Cons x xs)
  have "crc_loop c (x # xs) = crc_loop (c XOR x) xs" by simp
  also have "\<dots> = (c XOR x) XOR crc_loop 0 xs" by (rule Cons.IH)
  also have "\<dots> = c XOR (x XOR crc_loop 0 xs)" by (simp add: xor.assoc)
  also have "x XOR crc_loop 0 xs = crc_loop x xs" by (rule Cons.IH [symmetric])
  finally show ?case by simp
qed

text \<open>The constant bytes that \<open>build_frame\<close> writes first.\<close>

lemma header_bytes:
  "(word_of_int (drop_bit 8 FRAME_HEADER AND 0xFF) :: byte) = 0xAA"
  "(word_of_int (FRAME_HEADER AND 0xFF) :: byte) = 0x55"
  "(word_of_int PROTOCOL_VERSION :: byte) = 1"
  by (simp_all add: FRAME_HEADER_def PROTOCOL_VERSION_def)

lemma build_frame_Inr:
  "length payload \<le> 32 \<Longrightarrow>
   build_frame e s q payload =
     Inr (0xAA # 0x55 # 1 # word_of_int (e AND 0xFF) # word_of_int (s AND 0xFF) #
          word_of_int (q AND 0xFF) # of_nat (length payload) # payload @
          [crc_xor (0xAA # 0x55 # 1 # word_of_int (e AND 0xFF) # word_of_int (s AND 0xFF) #
                    word_of_int (q AND 0xFF) # of_nat (length payload) # payload)])"
  by (simp add: build_frame_def MAX_PAYLOAD_def Let_def header_bytes)

lemma unat_length_byte: "n \<le> 255 \<Longrightarrow> unat (of_nat n :: byte) = n"
  by (simp add: unat_of_nat take_bit_nat_eq_self)

lemma uint_masked_byte:
  assumes "0 \<le> e" "e < 256"
  shows "uint (word_of_int (e AND 0xFF) :: byte) = e"
proof -
  have "e AND 0xFF = take_bit 8 e"
    by (simp add: take_bit_eq_mask mask_eq_exp_minus_1)
  also have "\<dots> = e"
    using assms by (simp add: take_bit_int_eq_self)
  finally show ?thesis
    using assms by (simp add: uint_word_of_int take_bit_int_eq_self)
qed

text \<open>
  What \<open>parse_ack\<close> does with a buffer of exactly the frame's layout: seven leading
  bytes with the right magic and version, a payload of the declared length (at least
  one byte), one trailing byte.
\<close>

lemma parse_ack_shape:
  assumes n: "length p = n" "n \<le> 255" "1 \<le> n"
  shows "parse_ack (0xAA # 0x55 # 1 # e # s # q # of_nat n # p @ [c]) =
     (if c \<noteq> crc_xor (0xAA # 0x55 # 1 # e # s # q # of_nat n # p) then Inl ChecksumMismatch
      else Inr \<lparr>ack_event = uint e, ack_sub_event = uint s, ack_sequence = uint q,
                ack_status = Some (uint (p ! 0)),
                ack_ref_event = (if n > 1 then Some (uint (p ! 1)) else None),
                ack_ref_sub = (if n > 2 then Some (uint (p ! 2)) else None)\<rparr>)"
  using n
  by (auto simp add: parse_ack_def Let_def FRAME_HEADER_def PROTOCOL_VERSION_def
      unat_length_byte nth_append butlast_append)

text \<open>
  C6. \<open>build_frame\<close> raises the "payload too long" error exactly when the payload has
  more than 32 bytes: a payload of 33 bytes is rejected, one of 32 bytes gives a frame.
  That the result depends on the arguments alone is what a HOL function is.
\<close>

theorem build_frame_fails_iff_too_long:
  "(build_frame event sub_event sequence payload = Inl ValidationError) = (length payload > 32)
   \<and> (\<exists>e. build_frame event sub_event sequence payload = Inl e) = (length payload > 32)
   \<and> build_frame event sub_event sequence (replicate 33 b) = Inl ValidationError
   \<and> (\<exists>frame. build_frame event sub_event sequence (replicate 32 b) = Inr frame)"
  by (simp add: build_frame_def MAX_PAYLOAD_def Let_def)


text \<open>
  C1 (amended). For event, subevent and sequence in 0..255 and a payload of 1 to 32
  bytes, \<open>build_frame\<close> gives a frame, \<open>parse_ack\<close> accepts that frame, and the
  event, subevent and sequence it returns are the ones that were encoded.
\<close>

theorem decode_encode_roundtrip_nonempty:
  assumes "0 \<le> event" "event < 256" "0 \<le> sub_event" "sub_event < 256"
    "0 \<le> sequence" "sequence < 256" "1 \<le> length payload" "length payload \<le> 32"
  shows "\<exists>frame r. build_frame event sub_event sequence payload = Inr frame
           \<and> parse_ack frame = Inr r
           \<and> ack_event r = event \<and> ack_sub_event r = sub_event \<and> ack_sequence r = sequence"
proof -
  have len: "length payload \<le> 255" using assms by simp
  show ?thesis
    using assms
    by (simp add: build_frame_Inr parse_ack_shape [OF refl len] uint_masked_byte)
qed

theorem decode_encode_roundtrip_nonempty_witness:
  "\<exists>frame r. build_frame 0x10 0x01 1 [0x01] = Inr frame \<and> parse_ack frame = Inr r
           \<and> ack_event r = 0x10 \<and> ack_sub_event r = 0x01 \<and> ack_sequence r = 1"
  using decode_encode_roundtrip_nonempty [of "0x10" "0x01" 1 "[0x01]"] by simp

text \<open>
  C1 as stated fails for the empty payload, which is within the 32 bytes: the frame has
  8 bytes and \<open>parse_ack\<close> refuses anything shorter than 9.
\<close>

theorem decode_encode_empty_payload_too_short:
  "build_frame 0x10 0x01 1 [] = Inr [0xAA, 0x55, 0x01, 0x10, 0x01, 0x01, 0x00, 0xEE]
   \<and> parse_ack [0xAA, 0x55, 0x01, 0x10, 0x01, 0x01, 0x00, 0xEE] = Inl TooShort"
  by (simp add: build_frame_def MAX_PAYLOAD_def Let_def header_bytes crc_xor_def parse_ack_def)

text \<open>
  For a buffer that ends with its checksum byte (its length is 8 plus the declared
  payload length) and passes the checks before the checksum, \<open>parse_ack\<close> raises
  "Checksum mismatch" exactly when the last byte differs from the XOR of the bytes
  before it, and returns an ack otherwise.
\<close>

lemma parse_ack_checksum_exact_length:
  assumes "9 \<le> length data"
    and "push_bit 8 (uint (data ! 0)) OR uint (data ! 1) = FRAME_HEADER"
    and "uint (data ! 2) = PROTOCOL_VERSION"
    and "length data = 8 + unat (data ! 6)"
  shows "(parse_ack data = Inl ChecksumMismatch) = (last data \<noteq> crc_xor (butlast data))"
    and "(\<exists>r. parse_ack data = Inr r) = (last data = crc_xor (butlast data))"
proof -
  have "data \<noteq> []" using assms(1) by auto
  then have "last data = data ! (7 + unat (data ! 6))"
    using assms(4) by (simp add: last_conv_nth)
  then show "(parse_ack data = Inl ChecksumMismatch) = (last data \<noteq> crc_xor (butlast data))"
    and "(\<exists>r. parse_ack data = Inr r) = (last data = crc_xor (butlast data))"
    using assms by (simp_all add: parse_ack_def Let_def)
qed

text \<open>
  C5. The claim holds of a buffer that ends with its checksum byte, and fails when
  bytes follow the frame. The length check lets such a buffer through, the checksum is
  read at index 7 + payload length, but the XOR is taken over \<open>data[:-1]\<close>, which
  then contains the checksum byte itself. Failing input: the frame of
  \<open>build_frame 0x10 0x01 1 [0x01]\<close>, whose checksum 0xEE is the XOR of the eight bytes
  before it, followed by one byte 0x00. \<open>parse_ack\<close> raises "Checksum mismatch".
\<close>

theorem parse_ack_rejects_frame_with_trailing_byte:
  "build_frame 0x10 0x01 1 [0x01] = Inr [0xAA, 0x55, 0x01, 0x10, 0x01, 0x01, 0x01, 0x01, 0xEE]
   \<and> crc_xor [0xAA, 0x55, 0x01, 0x10, 0x01, 0x01, 0x01, 0x01] = 0xEE
   \<and> parse_ack [0xAA, 0x55, 0x01, 0x10, 0x01, 0x01, 0x01, 0x01, 0xEE] =
       Inr \<lparr>ack_event = 0x10, ack_sub_event = 1, ack_sequence = 1, ack_status = Some 1,
            ack_ref_event = None, ack_ref_sub = None\<rparr>
   \<and> parse_ack [0xAA, 0x55, 0x01, 0x10, 0x01, 0x01, 0x01, 0x01, 0xEE, 0x00] = Inl ChecksumMismatch"
  by (simp add: build_frame_def MAX_PAYLOAD_def Let_def header_bytes crc_xor_def parse_ack_def
      FRAME_HEADER_def PROTOCOL_VERSION_def)

text \<open>
  The same slip the other way round: a buffer whose frame has a wrong checksum byte
  (0x00 instead of 0xEE) is accepted when the bytes after it make the XOR of
  \<open>data[:-1]\<close> come out as that wrong byte.
\<close>

lemma parse_ack_accepts_bad_frame_with_trailing_byte:
  "crc_xor [0xAA, 0x55, 0x01, 0x10, 0x01, 0x01, 0x01, 0x01] \<noteq> 0x00
   \<and> parse_ack [0xAA, 0x55, 0x01, 0x10, 0x01, 0x01, 0x01, 0x01, 0x00, 0xEE, 0x00] =
       Inr \<lparr>ack_event = 0x10, ack_sub_event = 1, ack_sequence = 1, ack_status = Some 1,
            ack_ref_event = None, ack_ref_sub = None\<rparr>"
  by (simp add: Let_def crc_xor_def parse_ack_def FRAME_HEADER_def PROTOCOL_VERSION_def)

subsection \<open>Single-bit corruption\<close>

lemma flip_bit_neq: "k < 8 \<Longrightarrow> flip_bit k (w :: byte) \<noteq> w"
proof
  assume k: "k < 8" and eq: "flip_bit k w = w"
  have "bit (flip_bit k w) k = (\<not> bit w k)"
    using k by (simp add: bit_flip_bit_iff)
  with eq show False by simp
qed

lemma bit_cases: "k < 8 \<Longrightarrow> k = 0 \<or> k = 1 \<or> k = 2 \<or> k = 3 \<or> k = 4 \<or> k = 5 \<or> k = 6 \<or> k = (7::nat)"
  by arith

lemma crc_xor_Cons: "crc_xor (x # xs) = x XOR crc_xor xs"
  using crc_loop_acc [of x xs] by (simp add: crc_xor_def)

lemma crc_xor_snoc: "crc_xor (xs @ [x]) = crc_xor xs XOR x"
  by (simp add: crc_xor_def crc_loop_append)

lemma crc_xor_update:
  "i < length xs \<Longrightarrow> crc_xor (xs[i := x]) = crc_xor xs XOR (xs ! i) XOR x"
proof (induction xs arbitrary: i)
  case Nil
  then show ?case by simp
next
  case (Cons a xs)
  show ?case
  proof (cases i)
    case 0
    have "(a XOR crc_xor xs) XOR a XOR x = x XOR crc_xor xs"
      by (rule bit_eqI) (auto simp add: bit_xor_iff)
    then show ?thesis using 0 by (simp add: crc_xor_Cons)
  next
    case (Suc j)
    then have "j < length xs" using Cons.prems by simp
    then have "crc_xor (xs[j := x]) = crc_xor xs XOR (xs ! j) XOR x" by (rule Cons.IH)
    then show ?thesis using Suc by (simp add: crc_xor_Cons xor.assoc)
  qed
qed

lemma xor_flip_neq: "k < 8 \<Longrightarrow> c XOR w XOR flip_bit k (w :: byte) \<noteq> c"
proof
  assume k: "k < 8" and eq: "c XOR w XOR flip_bit k w = c"
  have "bit (c XOR w XOR flip_bit k w) k = (\<not> bit c k)"
    using k by (auto simp add: bit_xor_iff bit_flip_bit_iff)
  with eq show False by simp
qed


lemma parse_ack_bad_checksum:
  assumes "length body = 7 + n" "1 \<le> n" "n \<le> 255"
    "body ! 0 = 0xAA" "body ! 1 = 0x55" "body ! 2 = 1" "body ! 6 = of_nat n"
    "c \<noteq> crc_xor body"
  shows "parse_ack (body @ [c]) = Inl ChecksumMismatch"
  using assms
  by (simp add: parse_ack_def Let_def FRAME_HEADER_def PROTOCOL_VERSION_def
      unat_length_byte nth_append)

lemma parse_ack_flipped_header0:
  assumes "k < 8" "7 \<le> length rest"
  shows "parse_ack (flip_bit k 0xAA # 0x55 # rest) = Inl BadHeader"
  using bit_cases [OF assms(1)] assms(2)
  by (auto simp add: parse_ack_def Let_def FRAME_HEADER_def flip_bit_eq_xor)

lemma parse_ack_flipped_header1:
  assumes "k < 8" "7 \<le> length rest"
  shows "parse_ack (0xAA # flip_bit k 0x55 # rest) = Inl BadHeader"
  using bit_cases [OF assms(1)] assms(2)
  by (auto simp add: parse_ack_def Let_def FRAME_HEADER_def flip_bit_eq_xor)

lemma parse_ack_flipped_version:
  assumes "k < 8" "6 \<le> length rest"
  shows "parse_ack (0xAA # 0x55 # flip_bit k 1 # rest) = Inl BadVersion"
  using bit_cases [OF assms(1)] assms(2)
  by (auto simp add: parse_ack_def Let_def FRAME_HEADER_def PROTOCOL_VERSION_def flip_bit_eq_xor)



text \<open>
  C7 (amended). Take a frame that \<open>build_frame\<close> produced from a payload of at least one
  byte and invert one bit of it. If the bit lies in the header, \<open>parse_ack\<close> raises
  "Invalid header"; if it lies in the version byte, "Protocol version mismatch"; if it
  lies in the event, subevent, sequence, a payload byte or the checksum byte, "Checksum
  mismatch". The payload-length byte (index 6) is not covered.
\<close>

theorem bit_flip_detected:
  assumes built: "build_frame event sub_event sequence payload = Inr frame"
    and nonempty: "1 \<le> length payload"
    and i: "i < length frame" "i \<noteq> 6"
    and k: "k < 8"
  shows "parse_ack (flip_frame_bit i k frame) =
           Inl (if i < 2 then BadHeader else if i = 2 then BadVersion else ChecksumMismatch)"
proof -
  define n where "n = length payload"
  define body where "body = 0xAA # 0x55 # 1 # word_of_int (event AND 0xFF) #
      word_of_int (sub_event AND 0xFF) # word_of_int (sequence AND 0xFF) #
      (of_nat n :: byte) # payload"
  have n32: "n \<le> 32"
    using built by (simp add: build_frame_def MAX_PAYLOAD_def n_def split: if_splits)
  have frame: "frame = body @ [crc_xor body]"
    using built n32 by (simp add: build_frame_Inr n_def body_def)
  have len: "length body = 7 + n" by (simp add: body_def n_def)
  have n1: "1 \<le> n" using nonempty by (simp add: n_def)
  have n255: "n \<le> 255" using n32 by simp
  consider (h0) "i = 0" | (h1) "i = 1" | (v) "i = 2" | (inner) "3 \<le> i" "i < 7 + n" | (last) "i = 7 + n"
    using i len frame by force
  then show ?thesis
  proof cases
    case h0
    then show ?thesis
      using parse_ack_flipped_header0 [OF k, of "1 # word_of_int (event AND 0xFF) #
        word_of_int (sub_event AND 0xFF) # word_of_int (sequence AND 0xFF) #
        (of_nat n :: byte) # payload @ [crc_xor body]"] n1
      by (simp add: flip_frame_bit_def frame body_def n_def)
  next
    case h1
    then show ?thesis
      using parse_ack_flipped_header1 [OF k, of "1 # word_of_int (event AND 0xFF) #
        word_of_int (sub_event AND 0xFF) # word_of_int (sequence AND 0xFF) #
        (of_nat n :: byte) # payload @ [crc_xor body]"] n1
      by (simp add: flip_frame_bit_def frame body_def n_def)
  next
    case v
    then show ?thesis
      using parse_ack_flipped_version [OF k, of "word_of_int (event AND 0xFF) #
        word_of_int (sub_event AND 0xFF) # word_of_int (sequence AND 0xFF) #
        (of_nat n :: byte) # payload @ [crc_xor body]"] n1
      by (simp add: flip_frame_bit_def frame body_def n_def)
  next
    case inner
    define body' where "body' = body[i := flip_bit k (body ! i)]"
    have ib: "i < length body" using inner len by simp
    have upd: "flip_frame_bit i k frame = body' @ [crc_xor body]"
      using ib by (simp add: flip_frame_bit_def frame body'_def list_update_append nth_append)
    have "crc_xor body' = crc_xor body XOR (body ! i) XOR flip_bit k (body ! i)"
      unfolding body'_def using ib by (rule crc_xor_update)
    then have neq: "crc_xor body \<noteq> crc_xor body'"
      using xor_flip_neq [OF k, of "crc_xor body" "body ! i"] by simp
    have base: "body ! 0 = 0xAA" "body ! 1 = 0x55" "body ! 2 = 1" "body ! 6 = of_nat n"
      by (simp_all add: body_def)
    have same: "body' ! 0 = 0xAA" "body' ! 1 = 0x55" "body' ! 2 = 1" "body' ! 6 = of_nat n"
      using inner i(2) base by (simp_all add: body'_def)
    have "parse_ack (body' @ [crc_xor body]) = Inl ChecksumMismatch"
      using _ n1 n255 same neq
      by (rule parse_ack_bad_checksum) (simp add: body'_def len)
    then show ?thesis using inner upd by simp
  next
    case last
    have upd: "flip_frame_bit i k frame = body @ [flip_bit k (crc_xor body)]"
      using last len by (simp add: flip_frame_bit_def frame list_update_append nth_append)
    have same: "body ! 0 = 0xAA" "body ! 1 = 0x55" "body ! 2 = 1" "body ! 6 = of_nat n"
      by (simp_all add: body_def)
    have "parse_ack (body @ [flip_bit k (crc_xor body)]) = Inl ChecksumMismatch"
      using len n1 n255 same flip_bit_neq [OF k, of "crc_xor body"]
      by (rule parse_ack_bad_checksum)
    then show ?thesis using last upd by simp
  qed
qed


theorem bit_flip_detected_witness:
  "parse_ack (flip_frame_bit 3 0 [0xAA, 0x55, 0x01, 0x10, 0x01, 0x01, 0x01, 0x01, 0xEE])
     = Inl ChecksumMismatch"
proof -
  have b: "build_frame 0x10 0x01 1 [0x01] = Inr [0xAA, 0x55, 0x01, 0x10, 0x01, 0x01, 0x01, 0x01, 0xEE]"
    by (simp add: build_frame_def MAX_PAYLOAD_def Let_def header_bytes crc_xor_def)
  show ?thesis using bit_flip_detected [OF b, of 3 0] by simp
qed

text \<open>
  C7 as stated fails: with the lowest bit of the first header byte inverted the error
  is "Invalid header", raised before the checksum is looked at.
\<close>

theorem header_bit_flip_is_bad_header:
  "build_frame 0x10 0x01 1 [0x01] = Inr [0xAA, 0x55, 0x01, 0x10, 0x01, 0x01, 0x01, 0x01, 0xEE]
   \<and> flip_frame_bit 0 0 [0xAA, 0x55, 0x01, 0x10, 0x01, 0x01, 0x01, 0x01, 0xEE]
       = [0xAB, 0x55, 0x01, 0x10, 0x01, 0x01, 0x01, 0x01, 0xEE]
   \<and> parse_ack (flip_frame_bit 0 0 [0xAA, 0x55, 0x01, 0x10, 0x01, 0x01, 0x01, 0x01, 0xEE])
       = Inl BadHeader
   \<and> parse_ack (flip_frame_bit 0 0 [0xAA, 0x55, 0x01, 0x10, 0x01, 0x01, 0x01, 0x01, 0xEE])
       \<noteq> Inl ChecksumMismatch"
  by (simp add: build_frame_def MAX_PAYLOAD_def Let_def header_bytes crc_xor_def
      flip_frame_bit_def flip_bit_eq_xor parse_ack_def FRAME_HEADER_def)

text \<open>
  A bit inverted in the payload-length byte can go unnoticed: the length of this frame
  drops from 1 to 0, the byte then read as checksum is the payload byte, and it agrees
  with the XOR of \<open>data[:-1]\<close>.
\<close>

lemma length_bit_flip_accepted:
  "build_frame 0xFE 0 0 [0x07] = Inr [0xAA, 0x55, 0x01, 0xFE, 0x00, 0x00, 0x01, 0x07, 0x06]
   \<and> parse_ack (flip_frame_bit 6 0 [0xAA, 0x55, 0x01, 0xFE, 0x00, 0x00, 0x01, 0x07, 0x06]) =
       Inr \<lparr>ack_event = 0xFE, ack_sub_event = 0, ack_sequence = 0, ack_status = None,
            ack_ref_event = None, ack_ref_sub = None\<rparr>"
  by (simp add: build_frame_def MAX_PAYLOAD_def Let_def header_bytes crc_xor_def
      flip_frame_bit_def flip_bit_eq_xor parse_ack_def FRAME_HEADER_def PROTOCOL_VERSION_def)

subsection \<open>Acks with short payloads\<close>

text \<open>
  \<open>parse_ack\<close> returns an ack exactly when the buffer passes its five checks: at least
  9 bytes, the magic, the version, the checksum index within the buffer, and the byte
  there equal to the XOR of \<open>data[:-1]\<close>.
\<close>

lemma parse_ack_accepts_iff:
  "(\<exists>r. parse_ack data = Inr r) =
     (9 \<le> length data
      \<and> push_bit 8 (uint (data ! 0)) OR uint (data ! 1) = FRAME_HEADER
      \<and> uint (data ! 2) = PROTOCOL_VERSION
      \<and> 7 + unat (data ! 6) < length data
      \<and> data ! (7 + unat (data ! 6)) = crc_xor (butlast data))"
  by (auto simp add: parse_ack_def Let_def)

text \<open>
  C10. A buffer that passes the five checks of \<open>parse_ack\<close> is decoded successfully
  whatever its declared payload length, and the fields that the payload is too short
  for are \<open>None\<close>: the status when the declared payload length is 0, \<open>ref_event\<close>
  when it is below 2, \<open>ref_sub\<close> when it is below 3. A declared length of 0 is no
  reason to fail.
\<close>

theorem parse_ack_short_payload_none:
  assumes "9 \<le> length data"
    and "push_bit 8 (uint (data ! 0)) OR uint (data ! 1) = FRAME_HEADER"
    and "uint (data ! 2) = PROTOCOL_VERSION"
    and "7 + unat (data ! 6) < length data"
    and "data ! (7 + unat (data ! 6)) = crc_xor (butlast data)"
  shows "\<exists>r. parse_ack data = Inr r
       \<and> (unat (data ! 6) = 0 \<longrightarrow> ack_status r = None)
       \<and> (unat (data ! 6) < 2 \<longrightarrow> ack_ref_event r = None)
       \<and> (unat (data ! 6) < 3 \<longrightarrow> ack_ref_sub r = None)"
  using assms
  by (simp add: parse_ack_def Let_def)

text \<open>
  Three accepted buffers, with declared payload lengths 0, 1 and 2. The second and the
  third end with their checksum byte; with length 0 the 9 bytes that \<open>parse_ack\<close>
  asks for always include one byte after the checksum byte.
\<close>

theorem parse_ack_short_payload_none_witness:
  "(\<exists>r. parse_ack [0xAA, 0x55, 0x01, 0xFE, 0x00, 0x00, 0x00, 0x00, 0x00] = Inr r
       \<and> ack_status r = None \<and> ack_ref_event r = None \<and> ack_ref_sub r = None)
   \<and> (\<exists>r. parse_ack [0xAA, 0x55, 0x01, 0x10, 0x01, 0x01, 0x01, 0x01, 0xEE] = Inr r
       \<and> ack_ref_event r = None \<and> ack_ref_sub r = None)
   \<and> (\<exists>r. parse_ack [0xAA, 0x55, 0x01, 0x10, 0x01, 0x01, 0x02, 0x00, 0x10, 0xFC] = Inr r
       \<and> ack_ref_sub r = None)"
proof -
  have a: "\<exists>r. parse_ack [0xAA, 0x55, 0x01, 0xFE, 0x00, 0x00, 0x00, 0x00, 0x00] = Inr r
       \<and> ack_status r = None \<and> ack_ref_event r = None \<and> ack_ref_sub r = None"
    using parse_ack_short_payload_none [of "[0xAA, 0x55, 0x01, 0xFE, 0x00, 0x00, 0x00, 0x00, 0x00]"]
    by (simp add: FRAME_HEADER_def PROTOCOL_VERSION_def crc_xor_def)
  have b: "\<exists>r. parse_ack [0xAA, 0x55, 0x01, 0x10, 0x01, 0x01, 0x01, 0x01, 0xEE] = Inr r
       \<and> ack_ref_event r = None \<and> ack_ref_sub r = None"
    using parse_ack_short_payload_none [of "[0xAA, 0x55, 0x01, 0x10, 0x01, 0x01, 0x01, 0x01, 0xEE]"]
    by (simp add: FRAME_HEADER_def PROTOCOL_VERSION_def crc_xor_def)
  have c: "\<exists>r. parse_ack [0xAA, 0x55, 0x01, 0x10, 0x01, 0x01, 0x02, 0x00, 0x10, 0xFC] = Inr r
       \<and> ack_ref_sub r = None"
    using parse_ack_short_payload_none
      [of "[0xAA, 0x55, 0x01, 0x10, 0x01, 0x01, 0x02, 0x00, 0x10, 0xFC]"]
    by (simp add: FRAME_HEADER_def PROTOCOL_VERSION_def crc_xor_def)
  from a b c show ?thesis by blast
qed

section \<open>Properties of the discovery\<close>

lemma advertises_iff: "advertises device_name d = (truthy (name d) \<and> name d = Some device_name)"
  by (cases "name d") (auto simp add: advertises_def truthy_def)

lemma first_named_Cons:
  "first_named device_name (d # devices) =
     (if advertises device_name d then Some (address d) else first_named device_name devices)"
  by (simp add: advertises_iff)

lemma first_named_None:
  "(first_named device_name devices = None) = (\<forall>d \<in> set devices. \<not> advertises device_name d)"
  by (induction devices) (simp_all add: first_named_Cons del: first_named.simps(2))

lemma first_named_Some:
  "(first_named device_name devices = Some a) =
     (\<exists>before d after. devices = before @ d # after \<and> advertises device_name d \<and> address d = a
        \<and> (\<forall>x \<in> set before. \<not> advertises device_name x))"
proof (induction devices)
  case Nil
  show ?case by simp
next
  case (Cons x xs)
  show ?case
  proof (cases "advertises device_name x")
    case True
    have "(\<exists>before d after. x # xs = before @ d # after \<and> advertises device_name d
            \<and> address d = a \<and> (\<forall>y \<in> set before. \<not> advertises device_name y))
          = (address x = a)"
    proof
      assume "\<exists>before d after. x # xs = before @ d # after \<and> advertises device_name d
            \<and> address d = a \<and> (\<forall>y \<in> set before. \<not> advertises device_name y)"
      then obtain before d after where h: "x # xs = before @ d # after" "advertises device_name d"
        "address d = a" "\<forall>y \<in> set before. \<not> advertises device_name y" by blast
      show "address x = a"
      proof (cases before)
        case Nil
        then show ?thesis using h by simp
      next
        case (Cons b bs)
        then have "b = x" using h(1) by simp
        then show ?thesis using h(4) True Cons by simp
      qed
    next
      assume "address x = a"
      then have "x # xs = [] @ x # xs \<and> advertises device_name x \<and> address x = a
          \<and> (\<forall>y \<in> set []. \<not> advertises device_name y)" using True by simp
      then show "\<exists>before d after. x # xs = before @ d # after \<and> advertises device_name d
            \<and> address d = a \<and> (\<forall>y \<in> set before. \<not> advertises device_name y)" by blast
    qed
    then show ?thesis using True by (simp add: first_named_Cons del: first_named.simps(2))
  next
    case False
    have "(\<exists>before d after. x # xs = before @ d # after \<and> advertises device_name d
            \<and> address d = a \<and> (\<forall>y \<in> set before. \<not> advertises device_name y))
          = (\<exists>before d after. xs = before @ d # after \<and> advertises device_name d
            \<and> address d = a \<and> (\<forall>y \<in> set before. \<not> advertises device_name y))"
    proof
      assume "\<exists>before d after. x # xs = before @ d # after \<and> advertises device_name d
            \<and> address d = a \<and> (\<forall>y \<in> set before. \<not> advertises device_name y)"
      then obtain before d after where h: "x # xs = before @ d # after" "advertises device_name d"
        "address d = a" "\<forall>y \<in> set before. \<not> advertises device_name y" by blast
      show "\<exists>before d after. xs = before @ d # after \<and> advertises device_name d
            \<and> address d = a \<and> (\<forall>y \<in> set before. \<not> advertises device_name y)"
      proof (cases before)
        case Nil
        then show ?thesis using h False by simp
      next
        case (Cons b bs)
        then have "xs = bs @ d # after" "\<forall>y \<in> set bs. \<not> advertises device_name y"
          using h by simp_all
        then show ?thesis using h(2,3) by blast
      qed
    next
      assume "\<exists>before d after. xs = before @ d # after \<and> advertises device_name d
            \<and> address d = a \<and> (\<forall>y \<in> set before. \<not> advertises device_name y)"
      then obtain before d after where h: "xs = before @ d # after" "advertises device_name d"
        "address d = a" "\<forall>y \<in> set before. \<not> advertises device_name y" by blast
      then have "x # xs = (x # before) @ d # after" "\<forall>y \<in> set (x # before). \<not> advertises device_name y"
        using False by simp_all
      then show "\<exists>before d after. x # xs = before @ d # after \<and> advertises device_name d
            \<and> address d = a \<and> (\<forall>y \<in> set before. \<not> advertises device_name y)"
        using h(2,3) by blast
    qed
    then show ?thesis using False Cons.IH by (simp add: first_named_Cons del: first_named.simps(2))
  qed
qed

text \<open>
  C9. Given the list of devices that the scan produced, \<open>discover_device_by_name\<close>
  returns the address of the first device in the list that has a name equal to the
  requested one (devices before it either have no name or another name; a prefix or a
  longer name is another name), and it returns \<open>None\<close>, as a value and not as an
  exception, exactly when no device of the list has that name.
\<close>

theorem discover_returns_first_exact_match:
  "(discover_device_by_name device_name (Inr devices) = Inr (Some a)) =
     (\<exists>before d after. devices = before @ d # after \<and> advertises device_name d \<and> address d = a
        \<and> (\<forall>x \<in> set before. \<not> advertises device_name x))
   \<and> (discover_device_by_name device_name (Inr devices) = Inr None) =
     (\<forall>d \<in> set devices. \<not> advertises device_name d)
   \<and> (\<forall>e. discover_device_by_name device_name (Inr devices) \<noteq> Inl e)"
  by (simp add: discover_device_by_name_def first_named_None first_named_Some)

text \<open>
  A scan with a nameless device, a device whose name only starts with the requested
  one, and two devices with the requested name gives the address of the first of the
  two; without those two the result is \<open>None\<close>.
\<close>

theorem discover_returns_first_exact_match_witness:
  "discover_device_by_name ''HOSHI-MATRIX''
     (Inr [\<lparr>name = None, address = ''00:00:00:00:00:01''\<rparr>,
           \<lparr>name = Some ''HOSHI-MATRIX-2'', address = ''00:00:00:00:00:02''\<rparr>,
           \<lparr>name = Some ''HOSHI-MATRIX'', address = ''00:00:00:00:00:03''\<rparr>,
           \<lparr>name = Some ''HOSHI-MATRIX'', address = ''00:00:00:00:00:04''\<rparr>])
     = Inr (Some ''00:00:00:00:00:03'')
   \<and> discover_device_by_name ''HOSHI-MATRIX''
     (Inr [\<lparr>name = None, address = ''00:00:00:00:00:01''\<rparr>,
           \<lparr>name = Some ''HOSHI-MATRIX-2'', address = ''00:00:00:00:00:02''\<rparr>])
     = Inr None"
proof -
  let ?d1 = "\<lparr>name = None, address = ''00:00:00:00:00:01''\<rparr>"
  let ?d2 = "\<lparr>name = Some ''HOSHI-MATRIX-2'', address = ''00:00:00:00:00:02''\<rparr>"
  let ?d3 = "\<lparr>name = Some ''HOSHI-MATRIX'', address = ''00:00:00:00:00:03''\<rparr>"
  let ?d4 = "\<lparr>name = Some ''HOSHI-MATRIX'', address = ''00:00:00:00:00:04''\<rparr>"
  have "[?d1, ?d2, ?d3, ?d4] = [?d1, ?d2] @ ?d3 # [?d4] \<and> advertises ''HOSHI-MATRIX'' ?d3
      \<and> address ?d3 = ''00:00:00:00:00:03''
      \<and> (\<forall>x \<in> set [?d1, ?d2]. \<not> advertises ''HOSHI-MATRIX'' x)"
    by (simp add: advertises_def)
  then have found: "\<exists>before d after. [?d1, ?d2, ?d3, ?d4] = before @ d # after
      \<and> advertises ''HOSHI-MATRIX'' d \<and> address d = ''00:00:00:00:00:03''
      \<and> (\<forall>x \<in> set before. \<not> advertises ''HOSHI-MATRIX'' x)"
    by blast
  have none: "\<forall>d \<in> set [?d1, ?d2]. \<not> advertises ''HOSHI-MATRIX'' d"
    by (simp add: advertises_def)
  from discover_returns_first_exact_match [of "''HOSHI-MATRIX''" "[?d1, ?d2, ?d3, ?d4]" "''00:00:00:00:00:03''"] found
  have a: "discover_device_by_name ''HOSHI-MATRIX'' (Inr [?d1, ?d2, ?d3, ?d4])
      = Inr (Some ''00:00:00:00:00:03'')" by blast
  from discover_returns_first_exact_match [of "''HOSHI-MATRIX''" "[?d1, ?d2]"] none
  have b: "discover_device_by_name ''HOSHI-MATRIX'' (Inr [?d1, ?d2]) = Inr None" by blast
  from a b show ?thesis by simp
qed

section \<open>Properties of the controller\<close>

lemma written_append: "written (xs @ ys) = written xs @ written ys"
  by (induction xs rule: written.induct) simp_all

lemma subscribed_append: "subscribed active (xs @ ys) = subscribed (subscribed active xs) ys"
  by (induction active xs rule: subscribed.induct) simp_all

lemma handler_events_ack_handler:
  "\<exists>ws. snd (ack_handler st d state) = snd state @ ws \<and> (\<forall>w \<in> set ws. handler_event w)"
  by (cases "parse_ack d"; cases st) (simp_all add: ack_handler_def)

lemma deliver_warnings:
  "\<exists>ws. snd (deliver st ns state) = snd state @ ws \<and> (\<forall>w \<in> set ws. handler_event w)"
proof (induction ns arbitrary: state)
  case Nil
  show ?case by simp
next
  case (Cons d ns)
  obtain ws where ws: "snd (deliver st ns (ack_handler st d state)) = snd (ack_handler st d state) @ ws"
    "\<forall>w \<in> set ws. handler_event w"
    using Cons.IH by blast
  obtain vs where vs: "snd (ack_handler st d state) = snd state @ vs" "\<forall>w \<in> set vs. handler_event w"
    using handler_events_ack_handler by blast
  have "snd (deliver st (d # ns) state) = snd state @ (vs @ ws)"
    using ws(1) vs(1) by simp
  moreover have "\<forall>w \<in> set (vs @ ws). handler_event w"
    using ws(2) vs(2) by auto
  ultimately show ?case by blast
qed

lemma written_warnings: "\<forall>w \<in> set ws. handler_event w \<Longrightarrow> written ws = []"
proof (induction ws)
  case Nil
  show ?case by simp
next
  case (Cons w ws)
  then show ?case by (cases w) simp_all
qed

lemma subscribed_warnings:
  "\<forall>w \<in> set ws. handler_event w \<Longrightarrow> subscribed active ws = active"
proof (induction ws)
  case Nil
  show ?case by simp
next
  case (Cons w ws)
  then show ?case by (cases w) simp_all
qed

lemma deliver_from_empty:
  "\<exists>a ws. deliver st ns (None, []) = (a, ws) \<and> (\<forall>w \<in> set ws. handler_event w)"
proof -
  obtain ws where ws: "snd (deliver st ns (None, [])) = snd (None :: ack option, [] :: io list) @ ws"
    "\<forall>w \<in> set ws. handler_event w"
    using deliver_warnings [of st ns "(None, [])"] by blast
  then have "deliver st ns (None, []) = (fst (deliver st ns (None, [])), ws)"
    by (simp add: prod_eq_iff)
  then show ?thesis using ws(2) by blast
qed

lemma written_send_command:
  "written (calls (send_command st t ctl event subevent payload)) =
     (case build_frame event subevent 1 payload of
        Inl e \<Rightarrow> []
      | Inr frame \<Rightarrow> if connected ctl \<and> \<not> start_notify_raises t then [frame] else [])"
proof -
  obtain a ws where d: "deliver st (notifications t) (None, []) = (a, ws)"
    "\<forall>w \<in> set ws. handler_event w"
    using deliver_from_empty by blast
  show ?thesis
    using d by (simp add: send_command_def Let_def written_append written_warnings split: sum.splits)
qed

lemma written_send_command_03:
  "written (calls (send_command_03 t ctl event subevent payload)) =
     (case build_frame event subevent 1 payload of
        Inl e \<Rightarrow> []
      | Inr frame \<Rightarrow> if connected ctl \<and> \<not> start_notify_raises t then [frame] else [])"
proof -
  obtain a ws where d: "deliver (Some Streamlit) (notifications t) (None, []) = (a, ws)"
    "\<forall>w \<in> set ws. handler_event w"
    using deliver_from_empty by blast
  have f: "written (finally_stop t b) = []" for b
    by (simp add: finally_stop_def)
  show ?thesis
    using d by (simp add: send_command_03_def written_append written_warnings f split: sum.splits)
qed

lemma build_frame_sequence_one:
  assumes "build_frame event subevent 1 payload = Inr frame"
  shows "8 \<le> length frame \<and> frame ! 5 = 1"
proof -
  have "length payload \<le> 32"
    using assms by (simp add: build_frame_def MAX_PAYLOAD_def split: if_splits)
  then show ?thesis
    using assms by (auto simp add: build_frame_Inr)
qed

text \<open>
  C2 (amended). In both versions of \<open>send_command\<close> the frame handed to
  \<open>write_gatt_char\<close> is \<open>build_frame\<close>'s frame for sequence number 1: its sequence
  byte (index 5) is 1 in every send, so the sequence fields of two sends are equal.
\<close>

theorem send_writes_sequence_one:
  assumes "frame \<in> set (written (calls (send_command st t ctl event subevent payload)))
         \<or> frame \<in> set (written (calls (send_command_03 t ctl event subevent payload)))"
  shows "build_frame event subevent 1 payload = Inr frame \<and> 8 \<le> length frame \<and> frame ! 5 = 1"
proof -
  have "build_frame event subevent 1 payload = Inr frame"
    using assms
    by (auto simp add: written_send_command written_send_command_03 split: sum.splits if_splits)
  then show ?thesis using build_frame_sequence_one by blast
qed


theorem send_writes_sequence_one_witness:
  "build_frame 0x10 0x01 1 [0x01] = Inr [0xAA, 0x55, 0x01, 0x10, 0x01, 0x01, 0x01, 0x01, 0xEE]
   \<and> [0xAA, 0x55, 0x01, 0x10, 0x01, 0x01, 0x01, 0x01, 0xEE] ! 5 = (1 :: byte)"
proof -
  let ?t = "\<lparr>start_notify_raises = False, write_gatt_char_raises = False,
             stop_notify_raises = False, notifications = []\<rparr>"
  let ?ctl = "\<lparr>device_address = Some ''00:00:00:00:00:03'',
               client = Some \<lparr>is_connected = True\<rparr>\<rparr>"
  have "written (calls (send_command (Some Streamlit) ?t ?ctl 0x10 0x01 [0x01]))
          = [[0xAA, 0x55, 0x01, 0x10, 0x01, 0x01, 0x01, 0x01, 0xEE]]"
    by (simp add: send_command_def connected_def build_frame_def MAX_PAYLOAD_def Let_def
        header_bytes crc_xor_def)
  then have "[0xAA, 0x55, 0x01, 0x10, 0x01, 0x01, 0x01, 0x01, 0xEE]
          \<in> set (written (calls (send_command (Some Streamlit) ?t ?ctl 0x10 0x01 [0x01])))
      \<or> [0xAA, 0x55, 0x01, 0x10, 0x01, 0x01, 0x01, 0x01, 0xEE]
          \<in> set (written (calls (send_command_03 ?t ?ctl 0x10 0x01 [0x01])))"
    by simp
  from send_writes_sequence_one [OF this] show ?thesis by simp
qed

text \<open>
  C2 as stated fails: two sends in a row on a connected controller write frames whose
  sequence bytes are both 1; their difference is 0, not 1.
\<close>

theorem two_sends_same_sequence:
  "written (calls (send_command (Some Streamlit)
      \<lparr>start_notify_raises = False, write_gatt_char_raises = False,
       stop_notify_raises = False, notifications = []\<rparr>
      \<lparr>device_address = Some ''00:00:00:00:00:03'', client = Some \<lparr>is_connected = True\<rparr>\<rparr>
      0x10 0x01 [0x01]))
     = [[0xAA, 0x55, 0x01, 0x10, 0x01, 0x01, 0x01, 0x01, 0xEE]]
   \<and> written (calls (send_command (Some Streamlit)
      \<lparr>start_notify_raises = False, write_gatt_char_raises = False,
       stop_notify_raises = False, notifications = []\<rparr>
      \<lparr>device_address = Some ''00:00:00:00:00:03'', client = Some \<lparr>is_connected = True\<rparr>\<rparr>
      0x10 0x02 [0x01]))
     = [[0xAA, 0x55, 0x01, 0x10, 0x02, 0x01, 0x01, 0x01, 0xED]]
   \<and> written (calls (send_command_03
      \<lparr>start_notify_raises = False, write_gatt_char_raises = False,
       stop_notify_raises = False, notifications = []\<rparr>
      \<lparr>device_address = Some ''00:00:00:00:00:03'', client = Some \<lparr>is_connected = True\<rparr>\<rparr>
      0x10 0x01 [0x01]))
     = [[0xAA, 0x55, 0x01, 0x10, 0x01, 0x01, 0x01, 0x01, 0xEE]]
   \<and> written (calls (send_command_03
      \<lparr>start_notify_raises = False, write_gatt_char_raises = False,
       stop_notify_raises = False, notifications = []\<rparr>
      \<lparr>device_address = Some ''00:00:00:00:00:03'', client = Some \<lparr>is_connected = True\<rparr>\<rparr>
      0x10 0x02 [0x01]))
     = [[0xAA, 0x55, 0x01, 0x10, 0x02, 0x01, 0x01, 0x01, 0xED]]
   \<and> [0xAA, 0x55, 0x01, 0x10, 0x02, 0x01, 0x01, 0x01, 0xED] ! 5
       - [0xAA, 0x55, 0x01, 0x10, 0x01, 0x01, 0x01, 0x01, 0xEE] ! 5 = (0 :: byte)"
  by (simp add: send_command_def send_command_03_def finally_stop_def connected_def
      build_frame_def MAX_PAYLOAD_def Let_def header_bytes crc_xor_def)

text \<open>
  C8. When the controller has no client or the client is not connected, both versions
  of \<open>send_command\<close> raise "Device not connected" and have made no call at all: no
  subscription, no write, and the payload has not even been checked for its length.
\<close>

theorem send_not_connected_no_io:
  assumes "\<not> connected ctl"
  shows "send_command st t ctl event subevent payload = \<lparr>result = Inl NotConnectedError, calls = []\<rparr>
       \<and> send_command_03 t ctl event subevent payload = \<lparr>result = Inl NotConnectedError, calls = []\<rparr>"
  using assms by (simp add: send_command_def send_command_03_def)

theorem send_not_connected_no_io_witness:
  "send_command (Some Streamlit)
      \<lparr>start_notify_raises = False, write_gatt_char_raises = False,
       stop_notify_raises = False, notifications = []\<rparr>
      \<lparr>device_address = None, client = None\<rparr> 0x10 0x01 [0x01]
     = \<lparr>result = Inl NotConnectedError, calls = []\<rparr>
   \<and> send_command_03
      \<lparr>start_notify_raises = False, write_gatt_char_raises = False,
       stop_notify_raises = False, notifications = []\<rparr>
      \<lparr>device_address = Some ''00:00:00:00:00:03'', client = Some \<lparr>is_connected = False\<rparr>\<rparr>
      0x10 0x01 (replicate 40 0x00)
     = \<lparr>result = Inl NotConnectedError, calls = []\<rparr>"
proof -
  have a: "\<not> connected \<lparr>device_address = None, client = None\<rparr>"
    by (simp add: connected_def)
  have b: "\<not> connected \<lparr>device_address = Some ''00:00:00:00:00:03'',
                         client = Some \<lparr>is_connected = False\<rparr>\<rparr>"
    by (simp add: connected_def)
  from send_not_connected_no_io [OF a] send_not_connected_no_io [OF b] show ?thesis by blast
qed

text \<open>
  C3. In ws2812\_config\_ui.py nothing guards the awaits: when \<open>write_gatt_char\<close>
  raises after \<open>start_notify\<close> has returned, the exception leaves \<open>send_command\<close>
  before \<open>stop_notify\<close> is reached and the subscription stays active. On the same
  input the \<open>finally\<close> block of 03\_ws2812\_config\_ui.py calls \<open>stop_notify\<close>.
\<close>

theorem send_command_write_failure_leaves_subscription:
  "calls (send_command (Some Streamlit)
      \<lparr>start_notify_raises = False, write_gatt_char_raises = True,
       stop_notify_raises = False, notifications = []\<rparr>
      \<lparr>device_address = Some ''00:00:00:00:00:03'', client = Some \<lparr>is_connected = True\<rparr>\<rparr>
      0x10 0x01 [0x01])
     = [StartNotify True, WriteGattChar [0xAA, 0x55, 0x01, 0x10, 0x01, 0x01, 0x01, 0x01, 0xEE] False]
   \<and> subscribed False (calls (send_command (Some Streamlit)
      \<lparr>start_notify_raises = False, write_gatt_char_raises = True,
       stop_notify_raises = False, notifications = []\<rparr>
      \<lparr>device_address = Some ''00:00:00:00:00:03'', client = Some \<lparr>is_connected = True\<rparr>\<rparr>
      0x10 0x01 [0x01]))
   \<and> calls (send_command_03
      \<lparr>start_notify_raises = False, write_gatt_char_raises = True,
       stop_notify_raises = False, notifications = []\<rparr>
      \<lparr>device_address = Some ''00:00:00:00:00:03'', client = Some \<lparr>is_connected = True\<rparr>\<rparr>
      0x10 0x01 [0x01])
     = [StartNotify True, WriteGattChar [0xAA, 0x55, 0x01, 0x10, 0x01, 0x01, 0x01, 0x01, 0xEE] False,
        StopNotify True]"
  by (simp add: send_command_def send_command_03_def finally_stop_def connected_def
      build_frame_def MAX_PAYLOAD_def Let_def header_bytes crc_xor_def)

text \<open>
  03\_ws2812\_config\_ui.py does what C3 asks on every path: once \<open>start_notify\<close> has
  returned, \<open>stop_notify\<close> is called, and unless \<open>stop_notify\<close> itself raises no
  subscription is left.
\<close>

lemma send_command_03_stop_runs:
  assumes "StartNotify True \<in> set (calls (send_command_03 t ctl event subevent payload))"
  shows "\<exists>ok. StopNotify ok \<in> set (calls (send_command_03 t ctl event subevent payload))"
proof -
  obtain a ws where d: "deliver (Some Streamlit) (notifications t) (None, []) = (a, ws)"
    "\<forall>w \<in> set ws. handler_event w"
    using deliver_from_empty by blast
  have f: "\<exists>ok. StopNotify ok \<in> set (finally_stop t True)"
    by (auto simp add: finally_stop_def)
  show ?thesis
    using assms d f
    by (auto simp add: send_command_03_def finally_stop_def split: sum.splits if_splits)
qed

lemma send_command_03_unsubscribed:
  assumes "\<not> stop_notify_raises t"
  shows "\<not> subscribed False (calls (send_command_03 t ctl event subevent payload))"
proof -
  obtain a ws where d: "deliver (Some Streamlit) (notifications t) (None, []) = (a, ws)"
    "\<forall>w \<in> set ws. handler_event w"
    using deliver_from_empty by blast
  show ?thesis
    using assms d
    by (simp add: send_command_03_def finally_stop_def subscribed_append subscribed_warnings
        split: sum.splits)
qed







text \<open>
  ws2812\_config\_ui.py with \<open>st = None\<close>: the \<open>except\<close> clause of the handler raises
  \<open>AttributeError\<close> towards the BLE stack instead of warning. The send itself still
  returns \<open>None\<close>, and nothing records the decode failure.
\<close>

lemma send_command_handler_raises_without_streamlit:
  "send_command None
      \<lparr>start_notify_raises = False, write_gatt_char_raises = False, stop_notify_raises = False,
       notifications = [[0xAA, 0x55, 0x01, 0x10, 0x01, 0x01, 0x01, 0x00, 0x00]]\<rparr>
      \<lparr>device_address = Some ''00:00:00:00:00:03'', client = Some \<lparr>is_connected = True\<rparr>\<rparr>
      0x10 0x01 [0x01]
     = \<lparr>result = Inr None,
        calls = [StartNotify True,
                 WriteGattChar [0xAA, 0x55, 0x01, 0x10, 0x01, 0x01, 0x01, 0x01, 0xEE] True,
                 Sleep, HandlerRaised AttributeError, StopNotify True]\<rparr>"
  by (simp add: send_command_def connected_def build_frame_def MAX_PAYLOAD_def Let_def
      header_bytes crc_xor_def ack_handler_def parse_ack_def FRAME_HEADER_def
      PROTOCOL_VERSION_def)

end
